theory Spec2Isabelle
  imports Main "HOL-Library.Word"
begin

section \<open>Data model of \<open>stream_wrap.cc\<close>\<close>

text \<open>
  \<open>uv_buf_t\<close>: a view \<open>(base, len)\<close> into caller-owned memory. \<open>base\<close> is the
  address held in the \<open>char*\<close>, \<open>len\<close> the \<open>size_t\<close> length. Both are natural
  numbers: the only subtractions of the source on them are guarded by the comparison
  made just before, and the additions to \<open>base\<close> stay inside the buffer.
\<close>

record uv_buf_t =
  base :: nat
  len :: nat

text \<open>
  libuv's error codes used by this file (\<open>uv-errno.h\<close>: the negated errno values,
  here those of Linux). Every libuv error code is negative.
\<close>

definition UV_EAGAIN :: int where
  "UV_EAGAIN = - 11"

definition UV_ENOSYS :: int where
  "UV_ENOSYS = - 38"

definition UV_EINVAL :: int where
  "UV_EINVAL = - 22"

text \<open>The handle kinds of libuv (\<open>uv_handle_type\<close>).\<close>

datatype uv_handle_type =
    UV_UNKNOWN_HANDLE | UV_ASYNC | UV_CHECK | UV_FS_EVENT | UV_FS_POLL | UV_HANDLE
  | UV_IDLE | UV_NAMED_PIPE | UV_POLL | UV_PREPARE | UV_PROCESS | UV_STREAM | UV_TCP
  | UV_TIMER | UV_TTY | UV_UDP | UV_SIGNAL | UV_FILE

text \<open>The three wrapper classes \<open>AcceptHandle\<close> is instantiated with.\<close>

datatype wrap_type = TCPWrap | PipeWrap | UDPWrap

text \<open>
  A script object as far as this file looks into it: its internal field, which is the
  address of the \<open>uv\<close> handle of the wrapper attached to it (\<open>wrap->UVHandle()\<close>),
  or \<open>None\<close> when unwrapping yields \<open>nullptr\<close>.
\<close>

record js_object =
  internal_field :: "nat option"

text \<open>Script values passed as arguments; \<open>IsTrue\<close> holds of the value \<open>true\<close> only.\<close>

datatype js_value = JS_true | JS_false | JS_undefined | JS_number int

definition IsTrue :: "js_value \<Rightarrow> bool" where
  "IsTrue v = (v = JS_true)"

text \<open>
  The adapter. \<open>stream\<close> is the \<open>uv_stream_t*\<close> that \<open>stream()\<close> returns (\<open>None\<close> is
  \<open>nullptr\<close>);
  \<open>stream_type\<close> and \<open>write_queue_size\<close> are the fields \<open>type\<close> and
  \<open>write_queue_size\<close> (a 64-bit \<open>size_t\<close>) of the structure it points to.
  \<open>is_tcp\<close>, \<open>is_named_pipe\<close> and \<open>is_named_pipe_ipc\<close> are the results of the inline
  helpers of \<open>stream_wrap.h\<close>, \<open>persistent_IsEmpty\<close> that of
  \<open>persistent().IsEmpty()\<close>, and \<open>close_begun\<close> is the close state kept by
  \<open>HandleWrap\<close>.
\<close>

record LibuvStreamWrap =
  stream :: "nat option"
  stream_type :: uv_handle_type
  write_queue_size :: "64 word"
  is_tcp :: bool
  is_named_pipe :: bool
  is_named_pipe_ipc :: bool
  persistent_IsEmpty :: bool
  close_begun :: bool

text \<open>
  What libuv and the script engine answer to the calls made during one operation:
  the status each libuv function returns, the pending-handle report of the loop,
  the object \<open>WrapType::Instantiate\<close> returns (\<open>None\<close> is the empty handle), and
  the \<open>Maybe<bool>\<close> that \<open>object()->Set(...)\<close> returns (\<open>None\<close> is \<open>Nothing\<close>).
\<close>

record kernel =
  uv_pipe_pending_count :: int
  uv_pipe_pending_type :: uv_handle_type
  Instantiate :: "js_object option"
  uv_accept :: int
  object_Set :: "bool option"
  uv_try_write :: int
  uv_write :: int
  uv_write2 :: int
  uv_stream_set_blocking :: int
  uv_read_stop :: int

text \<open>
  The calls the adapter makes to libuv, to the script engine, to the instrumentation
  counters and to the listener, in the order it makes them. \<open>Call_uv_close\<close> is made by
  \<open>HandleWrap::Close\<close> only, outside this file.
\<close>

datatype call =
    Call_uv_pipe_pending_count "nat option"
  | Call_uv_pipe_pending_type "nat option"
  | NODE_COUNT_NET_BYTES_RECV int
  | NODE_COUNT_PIPE_BYTES_RECV int
  | Call_Instantiate wrap_type
  | Call_uv_accept "nat option" nat
  | Set_pendingHandle js_object
  | EmitRead int uv_buf_t
  | Call_uv_write nat "nat option" "uv_buf_t list" nat
  | Call_uv_write2 nat "nat option" "uv_buf_t list" nat nat
  | NODE_COUNT_NET_BYTES_SENT nat
  | NODE_COUNT_PIPE_BYTES_SENT nat
  | Dispatched nat
  | Call_uv_stream_set_blocking "nat option" bool
  | Call_uv_read_stop "nat option"
  | Call_uv_close "nat option"

text \<open>
  The places where the process is terminated: the \<open>CHECK\<close> macros, \<open>ABORT()\<close>, and
  \<open>FromJust()\<close> on a \<open>Maybe\<close> that is \<open>Nothing\<close>.
\<close>

datatype abort =
    CHECK_persistent_not_empty
  | CHECK_type_unknown
  | ABORT_uv_accept
  | FromJust_Nothing
  | CHECK_args_length

section \<open>\<open>DoTryWrite\<close>\<close>

text \<open>
  The loop \<open>for (; vcount > 0; vbufs++, vcount--)\<close> over the buffer array \<open>mem\<close>,
  with \<open>vbufs\<close> the index the pointer stands at. It returns the array, the pointer and
  the count as they are when the loop is left.
\<close>

fun slice_loop :: "uv_buf_t list \<Rightarrow> nat \<Rightarrow> nat \<Rightarrow> nat \<Rightarrow> uv_buf_t list \<times> nat \<times> nat" where
  "slice_loop mem vbufs 0 written = (mem, vbufs, 0)"
| "slice_loop mem vbufs (Suc n) written =
     (if len (mem ! vbufs) > written
      then (mem[vbufs := (mem ! vbufs)\<lparr>base := base (mem ! vbufs) + written,
                                      len := len (mem ! vbufs) - written\<rparr>],
            vbufs, Suc n)
      else slice_loop mem (vbufs + 1) n (written - len (mem ! vbufs)))"

text \<open>
  \<open>DoTryWrite(uv_buf_t** bufs, size_t* count)\<close>: the in/out parameters are the triple of
  the array, the pointer into it and the count; the result is the returned \<open>int\<close> and
  the triple after the call.
\<close>

definition DoTryWrite ::
  "kernel \<Rightarrow> uv_buf_t list \<times> nat \<times> nat \<Rightarrow> int \<times> uv_buf_t list \<times> nat \<times> nat" where
  "DoTryWrite k io =
     (case io of (mem, bufs, count) \<Rightarrow>
        (let err = uv_try_write k in
         if err = UV_ENOSYS \<or> err = UV_EAGAIN then (0, mem, bufs, count)
         else if err < 0 then (err, mem, bufs, count)
         else (0, slice_loop mem bufs count (nat err))))"

text \<open>The buffers a pointer and a count denote, and their total length.\<close>

definition view :: "uv_buf_t list \<Rightarrow> nat \<Rightarrow> nat \<Rightarrow> uv_buf_t list" where
  "view mem bufs count = take count (drop bufs mem)"

definition total_len :: "uv_buf_t list \<Rightarrow> nat" where
  "total_len bs = sum_list (map len bs)"

section \<open>\<open>AcceptHandle\<close> and \<open>OnUvRead\<close>\<close>

text \<open>
  \<open>AcceptHandle<WrapType, UVType>(env, parent)\<close>. The result is the list of calls made
  and either the abort or the returned \<open>Local<Object>\<close> (\<open>None\<close> is the empty
  handle returned by the two early returns).
\<close>

definition AcceptHandle ::
  "wrap_type \<Rightarrow> kernel \<Rightarrow> LibuvStreamWrap \<Rightarrow> call list \<times> (abort + js_object option)" where
  "AcceptHandle WrapType k parent =
     (case Instantiate k of
        None \<Rightarrow> ([Call_Instantiate WrapType], Inr None)
      | Some wrap_obj \<Rightarrow>
          (case internal_field wrap_obj of
             None \<Rightarrow> ([Call_Instantiate WrapType], Inr None)
           | Some handle \<Rightarrow>
               if uv_accept k \<noteq> 0
               then ([Call_Instantiate WrapType, Call_uv_accept (stream parent) handle],
                     Inl ABORT_uv_accept)
               else ([Call_Instantiate WrapType, Call_uv_accept (stream parent) handle],
                     Inr (Some wrap_obj))))"

text \<open>
  The first statement of \<open>OnUvRead\<close>: \<open>type\<close> starts as \<open>UV_UNKNOWN_HANDLE\<close> and is
  read from the loop only on an IPC pipe whose pending count is positive (the \<open>&&\<close>
  does not ask for the count on another stream).
\<close>

definition pending_query :: "kernel \<Rightarrow> LibuvStreamWrap \<Rightarrow> call list \<times> uv_handle_type" where
  "pending_query k this =
     (if is_named_pipe_ipc this
      then (if uv_pipe_pending_count k > 0
            then ([Call_uv_pipe_pending_count (stream this),
                   Call_uv_pipe_pending_type (stream this)], uv_pipe_pending_type k)
            else ([Call_uv_pipe_pending_count (stream this)], UV_UNKNOWN_HANDLE))
      else ([], UV_UNKNOWN_HANDLE))"

text \<open>The chain of \<open>if (type == ...)\<close> that chooses the wrapper class.\<close>

definition accept_pending ::
  "kernel \<Rightarrow> LibuvStreamWrap \<Rightarrow> uv_handle_type \<Rightarrow> call list \<times> (abort + js_object option)" where
  "accept_pending k this type =
     (if type = UV_TCP then AcceptHandle TCPWrap k this
      else if type = UV_NAMED_PIPE then AcceptHandle PipeWrap k this
      else if type = UV_UDP then AcceptHandle UDPWrap k this
      else if type = UV_UNKNOWN_HANDLE then ([], Inr None)
      else ([], Inl CHECK_type_unknown))"

definition OnUvRead ::
  "kernel \<Rightarrow> LibuvStreamWrap \<Rightarrow> int \<Rightarrow> uv_buf_t \<Rightarrow> call list \<times> (abort + unit)" where
  "OnUvRead k this nread buf =
     (case pending_query k this of (q, type) \<Rightarrow>
        if persistent_IsEmpty this then (q, Inl CHECK_persistent_not_empty)
        else if nread > 0 then
          (let c = (if is_tcp this then [NODE_COUNT_NET_BYTES_RECV nread]
                    else if is_named_pipe this then [NODE_COUNT_PIPE_BYTES_RECV nread]
                    else [])
           in case accept_pending k this type of
                (a, Inl e) \<Rightarrow> (q @ c @ a, Inl e)
              | (a, Inr pending_obj) \<Rightarrow>
                  (case pending_obj of
                     None \<Rightarrow> (q @ c @ a @ [EmitRead nread buf], Inr ())
                   | Some obj \<Rightarrow>
                       (case object_Set k of
                          None \<Rightarrow> (q @ c @ a @ [Set_pendingHandle obj], Inl FromJust_Nothing)
                        | Some b \<Rightarrow>
                            (q @ c @ a @ [Set_pendingHandle obj, EmitRead nread buf], Inr ()))))
        else (q @ [EmitRead nread buf], Inr ()))"

text \<open>\<open>ReadStop\<close>, the one place of the file that stops reading.\<close>

definition ReadStop :: "kernel \<Rightarrow> LibuvStreamWrap \<Rightarrow> call list \<times> int" where
  "ReadStop k this = ([Call_uv_read_stop (stream this)], uv_read_stop k)"

text \<open>The calls that construct a wrapper, accept into it or store it.\<close>

fun accepting_call :: "call \<Rightarrow> bool" where
  "accepting_call (Call_Instantiate t) = True"
| "accepting_call (Call_uv_accept s h) = True"
| "accepting_call (Set_pendingHandle obj) = True"
| "accepting_call c = False"

text \<open>The calls that construct a wrapper.\<close>

fun instantiating_call :: "call \<Rightarrow> bool" where
  "instantiating_call (Call_Instantiate t) = True"
| "instantiating_call c = False"

text \<open>The calls that close the handle or stop reading.\<close>

fun closing_call :: "call \<Rightarrow> bool" where
  "closing_call (Call_uv_close s) = True"
| "closing_call (Call_uv_read_stop s) = True"
| "closing_call c = False"

text \<open>The calls to the listener's read callback.\<close>

fun read_callback :: "call \<Rightarrow> bool" where
  "read_callback (EmitRead n b) = True"
| "read_callback c = False"

text \<open>The wrapper class that belongs to a transferred handle kind.\<close>

definition wrap_type_of :: "uv_handle_type \<Rightarrow> wrap_type option" where
  "wrap_type_of t =
     (if t = UV_TCP then Some TCPWrap
      else if t = UV_NAMED_PIPE then Some PipeWrap
      else if t = UV_UDP then Some UDPWrap
      else None)"

text \<open>
  Modelled from the spec: \<open>uv_accept\<close> belongs to libuv and is not part of
  \<open>stream_wrap.cc\<close>. The spec says that an accept failure "indicates a kernel/protocol
  invariant violation since the loop guaranteed the pending handle existed": when the
  loop's report of a pending handle is accurate, the handle is there and accepting it
  succeeds.
\<close>

definition pending_report_accurate :: "kernel \<Rightarrow> bool" where
  "pending_report_accurate k = (uv_pipe_pending_count k > 0 \<longrightarrow> uv_accept k = 0)"

section \<open>\<open>GetWriteQueueSize\<close> and \<open>SetBlocking\<close>\<close>

text \<open>
  \<open>GetWriteQueueSize\<close>: \<open>this\<close> is what unwrapping \<open>info.This()\<close> yields. The result is
  the adapter after the call and the value set as return value (\<open>None\<close> when the
  function returns without setting one). The \<open>size_t\<close> field is stored in a
  \<open>uint32_t\<close> local before it is returned.
\<close>

definition GetWriteQueueSize ::
  "LibuvStreamWrap option \<Rightarrow> LibuvStreamWrap option \<times> 32 word option" where
  "GetWriteQueueSize this =
     (case this of
        None \<Rightarrow> (this, None)
      | Some wrap \<Rightarrow>
          if stream wrap = None then (this, Some 0)
          else (let write_queue_size = (ucast (write_queue_size wrap) :: 32 word)
                in (this, Some write_queue_size)))"

text \<open>
  Modelled from the spec: \<open>HandleWrap::IsAlive\<close> is declared in \<open>handle_wrap.h\<close>, which
  is not among the sources. The spec says "after close begins, \<open>IsAlive()\<close> returns
  false".
\<close>

definition HandleWrap_IsAlive :: "LibuvStreamWrap \<Rightarrow> bool" where
  "HandleWrap_IsAlive wrap = (\<not> close_begun wrap)"

definition IsAlive :: "LibuvStreamWrap \<Rightarrow> bool" where
  "IsAlive this = HandleWrap_IsAlive this"

text \<open>
  \<open>SetBlocking(args)\<close>: \<open>holder\<close> is what unwrapping \<open>args.Holder()\<close> yields, \<open>args\<close>
  the argument list. The result is the calls made and either the abort of
  \<open>CHECK_GT(args.Length(), 0)\<close> or the value set as return value.
\<close>

definition SetBlocking ::
  "kernel \<Rightarrow> LibuvStreamWrap option \<Rightarrow> js_value list \<Rightarrow> call list \<times> (abort + int option)" where
  "SetBlocking k holder args =
     (case holder of
        None \<Rightarrow> ([], Inr None)
      | Some wrap \<Rightarrow>
          if \<not> (length args > 0) then ([], Inl CHECK_args_length)
          else if \<not> IsAlive wrap then ([], Inr (Some UV_EINVAL))
          else (let enable = IsTrue (args ! 0)
                in ([Call_uv_stream_set_blocking (stream wrap) enable],
                    Inr (Some (uv_stream_set_blocking k)))))"

section \<open>\<open>DoWrite\<close>\<close>

text \<open>
  The loop \<open>for (size_t i = 0; i < count; i++) bytes += bufs[i].len\<close>. \<open>bytes\<close> is a
  64-bit \<open>size_t\<close>: each addition wraps around at \<open>2 ^ 64\<close>.
\<close>

definition bytes_total :: "uv_buf_t list \<Rightarrow> nat \<Rightarrow> nat" where
  "bytes_total bufs count =
     fold (\<lambda>i bytes. (bytes + len (bufs ! i)) mod 2 ^ 64) [0..<count] 0"

text \<open>
  \<open>DoWrite(w, bufs, count, send_handle)\<close>: \<open>w\<close> names the write request,
  \<open>send_handle\<close> is \<open>None\<close> for \<open>nullptr\<close>. The result is the calls made and the
  returned status.
\<close>

definition DoWrite ::
  "kernel \<Rightarrow> LibuvStreamWrap \<Rightarrow> nat \<Rightarrow> uv_buf_t list \<Rightarrow> nat \<Rightarrow> nat option
     \<Rightarrow> call list \<times> int" where
  "DoWrite k this w bufs count send_handle =
     (case (case send_handle of
              None \<Rightarrow> ([Call_uv_write w (stream this) bufs count], uv_write k)
            | Some h \<Rightarrow> ([Call_uv_write2 w (stream this) bufs count h], uv_write2 k))
      of (d, r) \<Rightarrow>
        (d @ (if r = 0
              then (let bytes = bytes_total bufs count
                    in if stream_type this = UV_TCP then [NODE_COUNT_NET_BYTES_SENT bytes]
                       else if stream_type this = UV_NAMED_PIPE
                            then [NODE_COUNT_PIPE_BYTES_SENT bytes]
                       else [])
              else [])
           @ [Dispatched w], r))"


section \<open>Concrete adapters and answers of the loop\<close>

definition ipc_pipe :: LibuvStreamWrap where
  "ipc_pipe = \<lparr>stream = Some 1, stream_type = UV_NAMED_PIPE, write_queue_size = 0,
               is_tcp = False, is_named_pipe = True, is_named_pipe_ipc = True,
               persistent_IsEmpty = False, close_begun = False\<rparr>"

definition tcp_socket :: LibuvStreamWrap where
  "tcp_socket = \<lparr>stream = Some 2, stream_type = UV_TCP, write_queue_size = 4294967296,
                 is_tcp = True, is_named_pipe = False, is_named_pipe_ipc = False,
                 persistent_IsEmpty = False, close_begun = True\<rparr>"

definition tcp_pending :: kernel where
  "tcp_pending = \<lparr>uv_pipe_pending_count = 1, uv_pipe_pending_type = UV_TCP,
                  Instantiate = Some \<lparr>internal_field = Some 7\<rparr>, uv_accept = 0,
                  object_Set = Some True, uv_try_write = 4, uv_write = 0, uv_write2 = 0,
                  uv_stream_set_blocking = 0, uv_read_stop = 0\<rparr>"

definition two_bufs :: "uv_buf_t list" where
  "two_bufs = [\<lparr>base = 100, len = 2\<rparr>, \<lparr>base = 200, len = 3\<rparr>]"


section \<open>Properties of \<open>DoTryWrite\<close>\<close>

lemma view_Suc: "b < length mem \<Longrightarrow> view mem b (Suc c) = mem ! b # view mem (Suc b) c"
  by (simp add: view_def Cons_nth_drop_Suc[symmetric])

lemma total_len_Cons: "total_len (x # xs) = len x + total_len xs"
  by (simp add: total_len_def)

lemma total_len_Nil: "total_len [] = 0"
  by (simp add: total_len_def)

lemma slice_loop_char:
  "b + c \<le> length mem \<Longrightarrow> w \<le> total_len (view mem b c) \<Longrightarrow>
   \<exists>n r. n \<le> c \<and> total_len (take n (view mem b c)) + r = w \<and>
     (if n < c
      then r < len (mem ! (b + n)) \<and>
           slice_loop mem b c w =
             (mem[b + n := (mem ! (b + n))\<lparr>base := base (mem ! (b + n)) + r,
                                            len := len (mem ! (b + n)) - r\<rparr>], b + n, c - n)
      else r = 0 \<and> slice_loop mem b c w = (mem, b + c, 0))"
proof (induction c arbitrary: b w)
  case 0
  then show ?case by (simp add: view_def total_len_def)
next
  case (Suc c)
  from Suc.prems have lt: "b < length mem" by simp
  show ?case
  proof (cases "w < len (mem ! b)")
    case True
    then show ?thesis
      by (intro exI[of _ 0] exI[of _ w]) (simp add: total_len_Nil)
  next
    case False
    from Suc.prems lt have le: "w - len (mem ! b) \<le> total_len (view mem (Suc b) c)"
      by (simp add: view_Suc total_len_Cons)
    from Suc.prems have "Suc b + c \<le> length mem" by simp
    from Suc.IH[OF this le] obtain n r where
      n: "n \<le> c" and
      sum: "total_len (take n (view mem (Suc b) c)) + r = w - len (mem ! b)" and
      res: "if n < c
        then r < len (mem ! (Suc b + n)) \<and>
           slice_loop mem (Suc b) c (w - len (mem ! b)) =
             (mem[Suc b + n := (mem ! (Suc b + n))\<lparr>base := base (mem ! (Suc b + n)) + r,
                                            len := len (mem ! (Suc b + n)) - r\<rparr>], Suc b + n, c - n)
        else r = 0 \<and> slice_loop mem (Suc b) c (w - len (mem ! b)) = (mem, Suc b + c, 0)"
      by blast
    show ?thesis
      using n sum res False lt
      by (intro exI[of _ "Suc n"] exI[of _ r]) (auto simp: view_Suc total_len_Cons)
  qed
qed


lemma view_update:
  "b + n < length mem \<Longrightarrow> n < c \<Longrightarrow>
   view (mem[b + n := x]) (b + n) (c - n) = x # drop (Suc n) (view mem b c)"
proof -
  assume lt: "b + n < length mem" and n: "n < c"
  have "drop (b + n) (mem[b + n := x]) = x # drop (Suc (b + n)) mem"
    using lt by (simp add: drop_update_swap Cons_nth_drop_Suc[symmetric] del: drop_Suc_Cons)
  moreover from n have "c - n = Suc (c - Suc n)" by simp
  ultimately show ?thesis
    by (simp add: view_def drop_take add.commute)
qed

lemma view_nth: "n < c \<Longrightarrow> b + c \<le> length mem \<Longrightarrow> view mem b c ! n = mem ! (b + n)"
  by (simp add: view_def)

lemma length_view: "b + c \<le> length mem \<Longrightarrow> length (view mem b c) = c"
  by (simp add: view_def)

lemma total_len_append: "total_len (xs @ ys) = total_len xs + total_len ys"
  by (simp add: total_len_def)

lemma total_len_split:
  "n < length v \<Longrightarrow> total_len v = total_len (take n v) + len (v ! n) + total_len (drop (Suc n) v)"
proof -
  assume "n < length v"
  then have "v = take n v @ v ! n # drop (Suc n) v"
    by (simp add: id_take_nth_drop[symmetric])
  then have "total_len v = total_len (take n v @ v ! n # drop (Suc n) v)" by simp
  then show ?thesis by (simp add: total_len_append total_len_Cons)
qed

text \<open>
  C1 (amended): when the write reports \<open>W\<close> bytes with \<open>0 \<le> W \<le> L\<close>, \<open>L\<close> the total
  length of the \<open>count\<close> buffers at \<open>bufs\<close>, \<open>DoTryWrite\<close> returns 0 and leaves a
  sequence of total length \<open>L - W\<close>: the pointer has moved over the \<open>n\<close> leading
  buffers that were consumed whole, and when buffers remain the first of them has its
  base advanced and its length reduced by the remainder \<open>r\<close> (less than its length),
  the buffers after it following unchanged and in order. For the lengths 2 and 3 and
  \<open>W = 4\<close> the result is one buffer of length 1 at offset 2 into the second buffer.
\<close>

theorem DoTryWrite_slicing:
  "(bufs + count \<le> length mem \<and> 0 \<le> uv_try_write k \<and>
    nat (uv_try_write k) \<le> total_len (view mem bufs count) \<longrightarrow>
    (\<exists>mem' bufs' count' n r.
       DoTryWrite k (mem, bufs, count) = (0, mem', bufs', count') \<and>
       total_len (view mem' bufs' count') =
         total_len (view mem bufs count) - nat (uv_try_write k) \<and>
       n \<le> count \<and> bufs' = bufs + n \<and> count' = count - n \<and>
       total_len (take n (view mem bufs count)) + r = nat (uv_try_write k) \<and>
       (if n < count
        then r < len (mem ! (bufs + n)) \<and>
             view mem' bufs' count' =
               (mem ! (bufs + n))\<lparr>base := base (mem ! (bufs + n)) + r,
                                   len := len (mem ! (bufs + n)) - r\<rparr>
               # drop (Suc n) (view mem bufs count)
        else r = 0 \<and> view mem' bufs' count' = [])))
   \<and> (uv_try_write k = 4 \<longrightarrow>
       DoTryWrite k ([\<lparr>base = b1, len = 2\<rparr>, \<lparr>base = b2, len = 3\<rparr>], 0, 2) =
         (0, [\<lparr>base = b1, len = 2\<rparr>, \<lparr>base = b2 + 2, len = 1\<rparr>], 1, 1))"
proof (intro conjI impI)
  assume a: "bufs + count \<le> length mem \<and> 0 \<le> uv_try_write k \<and>
    nat (uv_try_write k) \<le> total_len (view mem bufs count)"
  define w where "w = nat (uv_try_write k)"
  from a have valid: "bufs + count \<le> length mem" and nonneg: "0 \<le> uv_try_write k"
    and le: "w \<le> total_len (view mem bufs count)"
    by (simp_all add: w_def)
  from nonneg have run: "DoTryWrite k (mem, bufs, count) = (0, slice_loop mem bufs count w)"
    by (simp add: DoTryWrite_def Let_def UV_EAGAIN_def UV_ENOSYS_def w_def)
  from slice_loop_char[OF valid le] obtain n r where
    n: "n \<le> count" and
    sum: "total_len (take n (view mem bufs count)) + r = w" and
    res: "if n < count
      then r < len (mem ! (bufs + n)) \<and>
           slice_loop mem bufs count w =
             (mem[bufs + n := (mem ! (bufs + n))\<lparr>base := base (mem ! (bufs + n)) + r,
                                            len := len (mem ! (bufs + n)) - r\<rparr>], bufs + n, count - n)
      else r = 0 \<and> slice_loop mem bufs count w = (mem, bufs + count, 0)"
    by blast
  show "\<exists>mem' bufs' count' n r.
       DoTryWrite k (mem, bufs, count) = (0, mem', bufs', count') \<and>
       total_len (view mem' bufs' count') =
         total_len (view mem bufs count) - nat (uv_try_write k) \<and>
       n \<le> count \<and> bufs' = bufs + n \<and> count' = count - n \<and>
       total_len (take n (view mem bufs count)) + r = nat (uv_try_write k) \<and>
       (if n < count
        then r < len (mem ! (bufs + n)) \<and>
             view mem' bufs' count' =
               (mem ! (bufs + n))\<lparr>base := base (mem ! (bufs + n)) + r,
                                   len := len (mem ! (bufs + n)) - r\<rparr>
               # drop (Suc n) (view mem bufs count)
        else r = 0 \<and> view mem' bufs' count' = [])"
  proof (cases "n < count")
    case True
    let ?x = "(mem ! (bufs + n))\<lparr>base := base (mem ! (bufs + n)) + r,
                                   len := len (mem ! (bufs + n)) - r\<rparr>"
    from True res have r: "r < len (mem ! (bufs + n))"
      and sl: "slice_loop mem bufs count w = (mem[bufs + n := ?x], bufs + n, count - n)"
      by simp_all
    from True valid have lt: "bufs + n < length mem" by simp
    have v: "view (mem[bufs + n := ?x]) (bufs + n) (count - n) =
               ?x # drop (Suc n) (view mem bufs count)"
      by (rule view_update[OF lt True])
    have "total_len (view mem bufs count) =
            total_len (take n (view mem bufs count)) + len (mem ! (bufs + n))
            + total_len (drop (Suc n) (view mem bufs count))"
      using total_len_split[of n "view mem bufs count"] True valid
      by (simp add: length_view view_nth)
    with sum r have tot: "total_len (?x # drop (Suc n) (view mem bufs count)) =
            total_len (view mem bufs count) - w"
      by (simp add: total_len_Cons)
    show ?thesis
      apply (rule exI[of _ "mem[bufs + n := ?x]"])
      apply (rule exI[of _ "bufs + n"])
      apply (rule exI[of _ "count - n"])
      apply (rule exI[of _ n])
      apply (rule exI[of _ r])
      using True n sum r run sl v tot by (simp add: w_def)
  next
    case False
    with n have eq: "n = count" by simp
    from False res have r: "r = 0" and sl: "slice_loop mem bufs count w = (mem, bufs + count, 0)"
      by simp_all
    from sum r eq valid have tw: "total_len (view mem bufs count) = w"
      by (simp add: length_view)
    show ?thesis
      apply (rule exI[of _ mem])
      apply (rule exI[of _ "bufs + count"])
      apply (rule exI[of _ 0])
      apply (rule exI[of _ count])
      apply (rule exI[of _ 0])
      using run sl eq sum r tw by (simp add: w_def view_def total_len_Nil)
  qed
next
  assume "uv_try_write k = 4"
  then show "DoTryWrite k ([\<lparr>base = b1, len = 2\<rparr>, \<lparr>base = b2, len = 3\<rparr>], 0, 2) =
         (0, [\<lparr>base = b1, len = 2\<rparr>, \<lparr>base = b2 + 2, len = 1\<rparr>], 1, 1)"
    by (simp add: DoTryWrite_def Let_def UV_EAGAIN_def UV_ENOSYS_def numeral_2_eq_2)
qed

text \<open>
  C4: when the non-blocking write reports would-block or not-supported, \<open>DoTryWrite\<close>
  returns 0 and leaves the array, the pointer and the count as they were; on any other
  negative status it returns that status (again changing nothing); on success it returns
  0; the returned value is never positive.
\<close>

theorem DoTryWrite_zero_progress:
  "(uv_try_write k = UV_EAGAIN \<or> uv_try_write k = UV_ENOSYS \<longrightarrow>
      DoTryWrite k (mem, bufs, count) = (0, mem, bufs, count))
   \<and> (uv_try_write k < 0 \<and> uv_try_write k \<noteq> UV_EAGAIN \<and> uv_try_write k \<noteq> UV_ENOSYS \<longrightarrow>
      DoTryWrite k (mem, bufs, count) = (uv_try_write k, mem, bufs, count))
   \<and> (0 \<le> uv_try_write k \<longrightarrow> fst (DoTryWrite k (mem, bufs, count)) = 0)
   \<and> fst (DoTryWrite k (mem, bufs, count)) \<le> 0"
  by (simp add: DoTryWrite_def Let_def)

text \<open>The slicing on the buffers of lengths 2 and 3 with 4 bytes written.\<close>

theorem DoTryWrite_slicing_witness:
  "0 + 2 \<le> length two_bufs \<and> 0 \<le> uv_try_write tcp_pending \<and>
   nat (uv_try_write tcp_pending) \<le> total_len (view two_bufs 0 2) \<and>
   uv_try_write tcp_pending = 4 \<and>
   DoTryWrite tcp_pending ([\<lparr>base = 100, len = 2\<rparr>, \<lparr>base = 200, len = 3\<rparr>], 0, 2) =
     (0, [\<lparr>base = 100, len = 2\<rparr>, \<lparr>base = 200 + 2, len = 1\<rparr>], 1, 1)"
  using DoTryWrite_slicing [where bufs = 0 and count = 2 and mem = two_bufs
      and k = tcp_pending and ?b1.0 = 100 and ?b2.0 = 200]
  by (simp add: two_bufs_def tcp_pending_def view_def total_len_def)

text \<open>The remaining buffer starts 2 bytes, not 1, into the second buffer.\<close>

theorem DoTryWrite_offset_counterexample:
  "uv_try_write tcp_pending = 4 \<and> map len two_bufs = [2, 3] \<and>
   DoTryWrite tcp_pending (two_bufs, 0, 2) =
     (0, [two_bufs ! 0, \<lparr>base = base (two_bufs ! 1) + 2, len = 1\<rparr>], 1, 1) \<and>
   DoTryWrite tcp_pending (two_bufs, 0, 2) \<noteq>
     (0, [two_bufs ! 0, \<lparr>base = base (two_bufs ! 1) + 1, len = 1\<rparr>], 1, 1)"
  by (simp add: DoTryWrite_def Let_def UV_EAGAIN_def UV_ENOSYS_def two_bufs_def
      tcp_pending_def numeral_2_eq_2)

text \<open>Would-block, another error (\<open>-32\<close>, a broken pipe) and a successful write.\<close>

theorem DoTryWrite_zero_progress_witness:
  "uv_try_write (tcp_pending\<lparr>uv_try_write := UV_EAGAIN\<rparr>) = UV_EAGAIN \<and>
   DoTryWrite (tcp_pending\<lparr>uv_try_write := UV_EAGAIN\<rparr>) (two_bufs, 0, 2) = (0, two_bufs, 0, 2) \<and>
   uv_try_write (tcp_pending\<lparr>uv_try_write := - 32\<rparr>) < 0 \<and>
   uv_try_write (tcp_pending\<lparr>uv_try_write := - 32\<rparr>) \<noteq> UV_EAGAIN \<and>
   uv_try_write (tcp_pending\<lparr>uv_try_write := - 32\<rparr>) \<noteq> UV_ENOSYS \<and>
   DoTryWrite (tcp_pending\<lparr>uv_try_write := - 32\<rparr>) (two_bufs, 0, 2) = (- 32, two_bufs, 0, 2) \<and>
   0 \<le> uv_try_write tcp_pending \<and>
   fst (DoTryWrite tcp_pending (two_bufs, 0, 2)) = 0"
  using DoTryWrite_zero_progress [of "tcp_pending\<lparr>uv_try_write := UV_EAGAIN\<rparr>" two_bufs 0 2]
    DoTryWrite_zero_progress [of "tcp_pending\<lparr>uv_try_write := - 32\<rparr>" two_bufs 0 2]
    DoTryWrite_zero_progress [of tcp_pending two_bufs 0 2]
  by (simp add: tcp_pending_def UV_EAGAIN_def UV_ENOSYS_def)

section \<open>Properties of \<open>OnUvRead\<close>\<close>

lemma pending_query_cases:
  "pending_query k this = ([], UV_UNKNOWN_HANDLE) \<or>
   pending_query k this = ([Call_uv_pipe_pending_count (stream this)], UV_UNKNOWN_HANDLE) \<or>
   (is_named_pipe_ipc this \<and> 0 < uv_pipe_pending_count k \<and>
    pending_query k this =
      ([Call_uv_pipe_pending_count (stream this), Call_uv_pipe_pending_type (stream this)],
       uv_pipe_pending_type k))"
  by (simp add: pending_query_def)

lemma pending_query_filters:
  "filter read_callback (fst (pending_query k this)) = []"
  "filter closing_call (fst (pending_query k this)) = []"
  "filter accepting_call (fst (pending_query k this)) = []"
  by (simp_all add: pending_query_def)

lemma AcceptHandle_filters:
  "filter read_callback (fst (AcceptHandle t k this)) = []"
  "filter closing_call (fst (AcceptHandle t k this)) = []"
  by (simp_all add: AcceptHandle_def split: option.splits)

lemma accept_pending_filters:
  "filter read_callback (fst (accept_pending k this ty)) = []"
  "filter closing_call (fst (accept_pending k this ty)) = []"
  by (simp_all add: accept_pending_def AcceptHandle_filters)

lemma accept_pending_abort:
  "snd (accept_pending k this ty) = Inl ABORT_uv_accept \<Longrightarrow>
   ty \<noteq> UV_UNKNOWN_HANDLE \<and> uv_accept k \<noteq> 0"
  by (auto simp: accept_pending_def AcceptHandle_def split: if_splits option.splits)

text \<open>
  C2 (amended): on a read completion with a positive byte count on an IPC pipe whose
  pending handle is of TCP, named-pipe or UDP kind, with the wrapper's persistent handle
  live, \<open>OnUvRead\<close> instantiates exactly one wrapper, of the matching class. When the
  instantiation yields an object with a wrapper in it, the accept returns 0 and the
  store succeeds, the accept is made against this adapter's stream, the object is
  stored as \<open>pendingHandle\<close> and the pair \<open>(nread, buf)\<close> is forwarded as it came.
  When the instantiation yields the empty handle or an object without a wrapper, there
  is no accept and nothing is stored, and the pair is forwarded all the same. When the
  accept fails, or the store yields \<open>Nothing\<close>, the process is aborted there and
  nothing is forwarded.
\<close>

theorem OnUvRead_handle_passing:
  "0 < nread \<and> \<not> persistent_IsEmpty this \<and> is_named_pipe_ipc this \<and>
   0 < uv_pipe_pending_count k \<and> wrap_type_of (uv_pipe_pending_type k) = Some WrapType \<and>
   head = [Call_uv_pipe_pending_count (stream this), Call_uv_pipe_pending_type (stream this)]
          @ (if is_tcp this then [NODE_COUNT_NET_BYTES_RECV nread]
             else if is_named_pipe this then [NODE_COUNT_PIPE_BYTES_RECV nread] else []) \<longrightarrow>
   filter instantiating_call (fst (OnUvRead k this nread buf)) = [Call_Instantiate WrapType]
   \<and> (Instantiate k = Some wrap_obj \<and> internal_field wrap_obj = Some handle \<and>
       uv_accept k = 0 \<and> object_Set k \<noteq> None \<longrightarrow>
       OnUvRead k this nread buf =
         (head @ [Call_Instantiate WrapType, Call_uv_accept (stream this) handle,
                  Set_pendingHandle wrap_obj, EmitRead nread buf], Inr ()))
   \<and> (Instantiate k = None \<or> (\<exists>obj. Instantiate k = Some obj \<and> internal_field obj = None) \<longrightarrow>
       OnUvRead k this nread buf =
         (head @ [Call_Instantiate WrapType, EmitRead nread buf], Inr ()))
   \<and> (Instantiate k = Some wrap_obj \<and> internal_field wrap_obj = Some handle \<and>
       uv_accept k \<noteq> 0 \<longrightarrow>
       OnUvRead k this nread buf =
         (head @ [Call_Instantiate WrapType, Call_uv_accept (stream this) handle],
          Inl ABORT_uv_accept))
   \<and> (Instantiate k = Some wrap_obj \<and> internal_field wrap_obj = Some handle \<and>
       uv_accept k = 0 \<and> object_Set k = None \<longrightarrow>
       OnUvRead k this nread buf =
         (head @ [Call_Instantiate WrapType, Call_uv_accept (stream this) handle,
                  Set_pendingHandle wrap_obj], Inl FromJust_Nothing))"
proof (intro impI)
  assume p: "0 < nread \<and> \<not> persistent_IsEmpty this \<and> is_named_pipe_ipc this \<and>
   0 < uv_pipe_pending_count k \<and> wrap_type_of (uv_pipe_pending_type k) = Some WrapType \<and>
   head = [Call_uv_pipe_pending_count (stream this), Call_uv_pipe_pending_type (stream this)]
          @ (if is_tcp this then [NODE_COUNT_NET_BYTES_RECV nread]
             else if is_named_pipe this then [NODE_COUNT_PIPE_BYTES_RECV nread] else [])"
  then have pq: "pending_query k this =
      ([Call_uv_pipe_pending_count (stream this), Call_uv_pipe_pending_type (stream this)],
       uv_pipe_pending_type k)"
    by (simp add: pending_query_def)
  from p have ap: "accept_pending k this (uv_pipe_pending_type k) = AcceptHandle WrapType k this"
    by (auto simp: accept_pending_def wrap_type_of_def split: if_splits)
  have run: "OnUvRead k this nread buf =
      (case AcceptHandle WrapType k this of
         (a, Inl e) \<Rightarrow> (head @ a, Inl e)
       | (a, Inr pending_obj) \<Rightarrow>
           (case pending_obj of
              None \<Rightarrow> (head @ a @ [EmitRead nread buf], Inr ())
            | Some obj \<Rightarrow>
                (case object_Set k of
                   None \<Rightarrow> (head @ a @ [Set_pendingHandle obj], Inl FromJust_Nothing)
                 | Some b \<Rightarrow> (head @ a @ [Set_pendingHandle obj, EmitRead nread buf], Inr ()))))"
    using p by (simp add: OnUvRead_def pq ap Let_def split: prod.splits sum.splits option.splits)
  have h: "filter instantiating_call head = []"
    using p by simp
  show "filter instantiating_call (fst (OnUvRead k this nread buf)) = [Call_Instantiate WrapType]
   \<and> (Instantiate k = Some wrap_obj \<and> internal_field wrap_obj = Some handle \<and>
       uv_accept k = 0 \<and> object_Set k \<noteq> None \<longrightarrow>
       OnUvRead k this nread buf =
         (head @ [Call_Instantiate WrapType, Call_uv_accept (stream this) handle,
                  Set_pendingHandle wrap_obj, EmitRead nread buf], Inr ()))
   \<and> (Instantiate k = None \<or> (\<exists>obj. Instantiate k = Some obj \<and> internal_field obj = None) \<longrightarrow>
       OnUvRead k this nread buf =
         (head @ [Call_Instantiate WrapType, EmitRead nread buf], Inr ()))
   \<and> (Instantiate k = Some wrap_obj \<and> internal_field wrap_obj = Some handle \<and>
       uv_accept k \<noteq> 0 \<longrightarrow>
       OnUvRead k this nread buf =
         (head @ [Call_Instantiate WrapType, Call_uv_accept (stream this) handle],
          Inl ABORT_uv_accept))
   \<and> (Instantiate k = Some wrap_obj \<and> internal_field wrap_obj = Some handle \<and>
       uv_accept k = 0 \<and> object_Set k = None \<longrightarrow>
       OnUvRead k this nread buf =
         (head @ [Call_Instantiate WrapType, Call_uv_accept (stream this) handle,
                  Set_pendingHandle wrap_obj], Inl FromJust_Nothing))"
    unfolding run using h
    by (auto simp: AcceptHandle_def split: option.splits)
qed

text \<open>
  A TCP handle that is accepted and stored; a UDP handle whose wrapper could not be
  instantiated; an accept that fails; a store that yields \<open>Nothing\<close>.
\<close>

theorem OnUvRead_handle_passing_witness:
  "0 < (5::int) \<and> \<not> persistent_IsEmpty ipc_pipe \<and> is_named_pipe_ipc ipc_pipe \<and>
   0 < uv_pipe_pending_count tcp_pending \<and>
   wrap_type_of (uv_pipe_pending_type tcp_pending) = Some TCPWrap \<and>
   Instantiate tcp_pending = Some \<lparr>internal_field = Some 7\<rparr> \<and>
   internal_field \<lparr>internal_field = Some 7\<rparr> = Some 7 \<and> uv_accept tcp_pending = 0 \<and>
   object_Set tcp_pending \<noteq> None \<and>
   filter instantiating_call (fst (OnUvRead tcp_pending ipc_pipe 5 \<lparr>base = 100, len = 8\<rparr>)) =
     [Call_Instantiate TCPWrap] \<and>
   OnUvRead tcp_pending ipc_pipe 5 \<lparr>base = 100, len = 8\<rparr> =
     ([Call_uv_pipe_pending_count (Some 1), Call_uv_pipe_pending_type (Some 1),
       NODE_COUNT_PIPE_BYTES_RECV 5, Call_Instantiate TCPWrap, Call_uv_accept (Some 1) 7,
       Set_pendingHandle \<lparr>internal_field = Some 7\<rparr>, EmitRead 5 \<lparr>base = 100, len = 8\<rparr>],
      Inr ()) \<and>
   Instantiate (tcp_pending\<lparr>uv_pipe_pending_type := UV_UDP, Instantiate := None\<rparr>) = None \<and>
   OnUvRead (tcp_pending\<lparr>uv_pipe_pending_type := UV_UDP, Instantiate := None\<rparr>) ipc_pipe 5
       \<lparr>base = 100, len = 8\<rparr> =
     ([Call_uv_pipe_pending_count (Some 1), Call_uv_pipe_pending_type (Some 1),
       NODE_COUNT_PIPE_BYTES_RECV 5, Call_Instantiate UDPWrap,
       EmitRead 5 \<lparr>base = 100, len = 8\<rparr>], Inr ()) \<and>
   uv_accept (tcp_pending\<lparr>uv_accept := - 11\<rparr>) \<noteq> 0 \<and>
   OnUvRead (tcp_pending\<lparr>uv_accept := - 11\<rparr>) ipc_pipe 5 \<lparr>base = 100, len = 8\<rparr> =
     ([Call_uv_pipe_pending_count (Some 1), Call_uv_pipe_pending_type (Some 1),
       NODE_COUNT_PIPE_BYTES_RECV 5, Call_Instantiate TCPWrap, Call_uv_accept (Some 1) 7],
      Inl ABORT_uv_accept) \<and>
   object_Set (tcp_pending\<lparr>object_Set := None\<rparr>) = None \<and>
   OnUvRead (tcp_pending\<lparr>object_Set := None\<rparr>) ipc_pipe 5 \<lparr>base = 100, len = 8\<rparr> =
     ([Call_uv_pipe_pending_count (Some 1), Call_uv_pipe_pending_type (Some 1),
       NODE_COUNT_PIPE_BYTES_RECV 5, Call_Instantiate TCPWrap, Call_uv_accept (Some 1) 7,
       Set_pendingHandle \<lparr>internal_field = Some 7\<rparr>], Inl FromJust_Nothing)"
  using OnUvRead_handle_passing [where nread = 5 and this = ipc_pipe and k = tcp_pending
      and WrapType = TCPWrap and wrap_obj = "\<lparr>internal_field = Some 7\<rparr>" and handle = 7
      and buf = "\<lparr>base = 100, len = 8\<rparr>"
      and head = "[Call_uv_pipe_pending_count (Some 1), Call_uv_pipe_pending_type (Some 1),
                   NODE_COUNT_PIPE_BYTES_RECV 5]"]
    OnUvRead_handle_passing [where nread = 5 and this = ipc_pipe
      and k = "tcp_pending\<lparr>uv_pipe_pending_type := UV_UDP, Instantiate := None\<rparr>"
      and WrapType = UDPWrap and buf = "\<lparr>base = 100, len = 8\<rparr>"
      and head = "[Call_uv_pipe_pending_count (Some 1), Call_uv_pipe_pending_type (Some 1),
                   NODE_COUNT_PIPE_BYTES_RECV 5]"]
    OnUvRead_handle_passing [where nread = 5 and this = ipc_pipe
      and k = "tcp_pending\<lparr>uv_accept := - 11\<rparr>"
      and WrapType = TCPWrap and wrap_obj = "\<lparr>internal_field = Some 7\<rparr>" and handle = 7
      and buf = "\<lparr>base = 100, len = 8\<rparr>"
      and head = "[Call_uv_pipe_pending_count (Some 1), Call_uv_pipe_pending_type (Some 1),
                   NODE_COUNT_PIPE_BYTES_RECV 5]"]
    OnUvRead_handle_passing [where nread = 5 and this = ipc_pipe
      and k = "tcp_pending\<lparr>object_Set := None\<rparr>"
      and WrapType = TCPWrap and wrap_obj = "\<lparr>internal_field = Some 7\<rparr>" and handle = 7
      and buf = "\<lparr>base = 100, len = 8\<rparr>"
      and head = "[Call_uv_pipe_pending_count (Some 1), Call_uv_pipe_pending_type (Some 1),
                   NODE_COUNT_PIPE_BYTES_RECV 5]"]
  by (simp add: ipc_pipe_def tcp_pending_def wrap_type_of_def)

text \<open>A pending TCP handle, 5 bytes read, and \<open>Instantiate\<close> returning the empty handle: no accept is made and nothing is stored.\<close>

theorem OnUvRead_empty_instantiation_counterexample:
  "0 < (5::int) \<and> is_named_pipe_ipc ipc_pipe \<and>
   0 < uv_pipe_pending_count (tcp_pending\<lparr>Instantiate := None\<rparr>) \<and>
   uv_pipe_pending_type (tcp_pending\<lparr>Instantiate := None\<rparr>) = UV_TCP \<and>
   OnUvRead (tcp_pending\<lparr>Instantiate := None\<rparr>) ipc_pipe 5 \<lparr>base = 100, len = 8\<rparr> =
     ([Call_uv_pipe_pending_count (Some 1), Call_uv_pipe_pending_type (Some 1),
       NODE_COUNT_PIPE_BYTES_RECV 5, Call_Instantiate TCPWrap,
       EmitRead 5 \<lparr>base = 100, len = 8\<rparr>], Inr ())"
  by (simp add: OnUvRead_def pending_query_def accept_pending_def AcceptHandle_def
      ipc_pipe_def tcp_pending_def)

text \<open>
  C5: once the wrapper is instantiated, a failing \<open>uv_accept\<close> aborts the process, in
  \<open>AcceptHandle\<close> and so in the \<open>OnUvRead\<close> of an IPC read with a pending stream
  handle, where nothing is forwarded any more; when the loop's report of a pending handle
  is accurate, \<open>OnUvRead\<close> never ends in that abort.
\<close>

theorem accept_failure_is_fatal:
  "(Instantiate k = Some wrap_obj \<and> internal_field wrap_obj = Some handle \<and> uv_accept k \<noteq> 0 \<longrightarrow>
      AcceptHandle WrapType k this =
        ([Call_Instantiate WrapType, Call_uv_accept (stream this) handle], Inl ABORT_uv_accept))
   \<and> (0 < nread \<and> \<not> persistent_IsEmpty this \<and> is_named_pipe_ipc this \<and>
       0 < uv_pipe_pending_count k \<and> wrap_type_of (uv_pipe_pending_type k) = Some WrapType \<and>
       Instantiate k = Some wrap_obj \<and> internal_field wrap_obj = Some handle \<and> uv_accept k \<noteq> 0 \<longrightarrow>
      snd (OnUvRead k this nread buf) = Inl ABORT_uv_accept \<and>
      filter read_callback (fst (OnUvRead k this nread buf)) = [])
   \<and> (pending_report_accurate k \<longrightarrow> snd (OnUvRead k this nread buf) \<noteq> Inl ABORT_uv_accept)"
proof (intro conjI impI)
  assume "Instantiate k = Some wrap_obj \<and> internal_field wrap_obj = Some handle \<and> uv_accept k \<noteq> 0"
  then show "AcceptHandle WrapType k this =
        ([Call_Instantiate WrapType, Call_uv_accept (stream this) handle], Inl ABORT_uv_accept)"
    by (simp add: AcceptHandle_def)
next
  assume a: "0 < nread \<and> \<not> persistent_IsEmpty this \<and> is_named_pipe_ipc this \<and>
       0 < uv_pipe_pending_count k \<and> wrap_type_of (uv_pipe_pending_type k) = Some WrapType \<and>
       Instantiate k = Some wrap_obj \<and> internal_field wrap_obj = Some handle \<and> uv_accept k \<noteq> 0"
  then show "snd (OnUvRead k this nread buf) = Inl ABORT_uv_accept"
    by (auto simp: OnUvRead_def pending_query_def accept_pending_def AcceptHandle_def
        wrap_type_of_def split: if_splits)
  from a show "filter read_callback (fst (OnUvRead k this nread buf)) = []"
    by (auto simp: OnUvRead_def pending_query_def accept_pending_def AcceptHandle_def
        wrap_type_of_def split: if_splits)
next
  assume acc: "pending_report_accurate k"
  show "snd (OnUvRead k this nread buf) \<noteq> Inl ABORT_uv_accept"
  proof
    assume ab: "snd (OnUvRead k this nread buf) = Inl ABORT_uv_accept"
    obtain q ty where pq: "pending_query k this = (q, ty)" by (cases "pending_query k this")
    obtain a res where ap: "accept_pending k this ty = (a, res)"
      by (cases "accept_pending k this ty")
    from ab pq ap have "res = Inl ABORT_uv_accept"
      by (auto simp: OnUvRead_def Let_def split: if_splits sum.splits option.splits)
    with ap accept_pending_abort[of k this ty]
    have ty: "ty \<noteq> UV_UNKNOWN_HANDLE" and fail: "uv_accept k \<noteq> 0" by simp_all
    from pq ty have "0 < uv_pipe_pending_count k"
      using pending_query_cases[of k this] by auto
    with acc fail show False by (simp add: pending_report_accurate_def)
  qed
qed

text \<open>An accept that fails with \<open>-11\<close>, and one that succeeds under an accurate report.\<close>

theorem accept_failure_is_fatal_witness:
  "0 < (5::int) \<and> \<not> persistent_IsEmpty ipc_pipe \<and> is_named_pipe_ipc ipc_pipe \<and>
   0 < uv_pipe_pending_count (tcp_pending\<lparr>uv_accept := - 11\<rparr>) \<and>
   wrap_type_of (uv_pipe_pending_type (tcp_pending\<lparr>uv_accept := - 11\<rparr>)) = Some TCPWrap \<and>
   Instantiate (tcp_pending\<lparr>uv_accept := - 11\<rparr>) = Some \<lparr>internal_field = Some 7\<rparr> \<and>
   uv_accept (tcp_pending\<lparr>uv_accept := - 11\<rparr>) \<noteq> 0 \<and>
   AcceptHandle TCPWrap (tcp_pending\<lparr>uv_accept := - 11\<rparr>) ipc_pipe =
     ([Call_Instantiate TCPWrap, Call_uv_accept (Some 1) 7], Inl ABORT_uv_accept) \<and>
   snd (OnUvRead (tcp_pending\<lparr>uv_accept := - 11\<rparr>) ipc_pipe 5 \<lparr>base = 100, len = 8\<rparr>) =
     Inl ABORT_uv_accept \<and>
   filter read_callback
     (fst (OnUvRead (tcp_pending\<lparr>uv_accept := - 11\<rparr>) ipc_pipe 5 \<lparr>base = 100, len = 8\<rparr>)) = [] \<and>
   pending_report_accurate tcp_pending \<and>
   snd (OnUvRead tcp_pending ipc_pipe 5 \<lparr>base = 100, len = 8\<rparr>) \<noteq> Inl ABORT_uv_accept"
  using accept_failure_is_fatal [where k = "tcp_pending\<lparr>uv_accept := - 11\<rparr>"
      and wrap_obj = "\<lparr>internal_field = Some 7\<rparr>" and handle = 7 and WrapType = TCPWrap
      and this = ipc_pipe and nread = 5 and buf = "\<lparr>base = 100, len = 8\<rparr>"]
    accept_failure_is_fatal [where k = tcp_pending and this = ipc_pipe and nread = 5
      and buf = "\<lparr>base = 100, len = 8\<rparr>"]
  by (simp add: ipc_pipe_def tcp_pending_def wrap_type_of_def pending_report_accurate_def)

text \<open>
  C6 (amended): a read completion that does not end in one of the fatal checks -- the
  wrapper's persistent handle is live and, for a positive byte count, the pending type
  is unknown, TCP, named pipe or UDP and, when a wrapper is instantiated, the accept
  returns 0 and the store as \<open>pendingHandle\<close> does not yield \<open>Nothing\<close> -- is
  forwarded to the read callback exactly once, as the last call, with the pair
  \<open>(nread, buf)\<close> as it came; for a zero or negative count and a live persistent
  handle this is always so, the forward being the only call after the pending query.
  No read completion closes the handle or stops reading.
\<close>

theorem OnUvRead_forwards:
  "(snd (OnUvRead k this nread buf) = Inr () \<longleftrightarrow>
      \<not> persistent_IsEmpty this \<and>
      (0 < nread \<longrightarrow>
         snd (pending_query k this) \<in> {UV_UNKNOWN_HANDLE, UV_TCP, UV_NAMED_PIPE, UV_UDP} \<and>
         (snd (pending_query k this) \<noteq> UV_UNKNOWN_HANDLE \<longrightarrow>
            (\<forall>obj h. Instantiate k = Some obj \<and> internal_field obj = Some h \<longrightarrow>
               uv_accept k = 0 \<and> object_Set k \<noteq> None))))
   \<and> (snd (OnUvRead k this nread buf) = Inr () \<longrightarrow>
        last (fst (OnUvRead k this nread buf)) = EmitRead nread buf \<and>
        filter read_callback (fst (OnUvRead k this nread buf)) = [EmitRead nread buf])
   \<and> (nread \<le> 0 \<and> \<not> persistent_IsEmpty this \<longrightarrow>
        OnUvRead k this nread buf = (fst (pending_query k this) @ [EmitRead nread buf], Inr ()))
   \<and> filter closing_call (fst (OnUvRead k this nread buf)) = []"
proof -
  obtain q ty where pq: "pending_query k this = (q, ty)" by (cases "pending_query k this")
  obtain a res where ap: "accept_pending k this ty = (a, res)"
    by (cases "accept_pending k this ty")
  from pq pending_query_filters[of k this]
  have q: "filter read_callback q = []" "filter closing_call q = []" by simp_all
  from ap accept_pending_filters[of k this ty]
  have a: "filter read_callback a = []" "filter closing_call a = []" by simp_all
  have 1: "snd (OnUvRead k this nread buf) = Inr () \<longleftrightarrow>
      \<not> persistent_IsEmpty this \<and>
      (0 < nread \<longrightarrow>
         snd (pending_query k this) \<in> {UV_UNKNOWN_HANDLE, UV_TCP, UV_NAMED_PIPE, UV_UDP} \<and>
         (snd (pending_query k this) \<noteq> UV_UNKNOWN_HANDLE \<longrightarrow>
            (\<forall>obj h. Instantiate k = Some obj \<and> internal_field obj = Some h \<longrightarrow>
               uv_accept k = 0 \<and> object_Set k \<noteq> None)))"
    by (auto simp: OnUvRead_def pending_query_def accept_pending_def AcceptHandle_def Let_def
        split: if_splits option.splits)
  have 2: "snd (OnUvRead k this nread buf) = Inr () \<longrightarrow>
        last (fst (OnUvRead k this nread buf)) = EmitRead nread buf \<and>
        filter read_callback (fst (OnUvRead k this nread buf)) = [EmitRead nread buf]"
    using pq ap q a by (auto simp: OnUvRead_def Let_def split: sum.splits option.splits)
  have 3: "nread \<le> 0 \<and> \<not> persistent_IsEmpty this \<longrightarrow>
        OnUvRead k this nread buf = (fst (pending_query k this) @ [EmitRead nread buf], Inr ())"
    using pq by (simp add: OnUvRead_def)
  have 4: "filter closing_call (fst (OnUvRead k this nread buf)) = []"
    using pq ap q a by (auto simp: OnUvRead_def Let_def split: sum.splits option.splits)
  from 1 2 3 4 show ?thesis by blast
qed

text \<open>A read of 5 bytes with an accepted handle, and an end of stream (\<open>-4095\<close>).\<close>

theorem OnUvRead_forwards_witness:
  "snd (OnUvRead tcp_pending ipc_pipe 5 \<lparr>base = 100, len = 8\<rparr>) = Inr () \<and>
   last (fst (OnUvRead tcp_pending ipc_pipe 5 \<lparr>base = 100, len = 8\<rparr>)) =
     EmitRead 5 \<lparr>base = 100, len = 8\<rparr> \<and>
   (- 4095 :: int) \<le> 0 \<and> \<not> persistent_IsEmpty ipc_pipe \<and>
   OnUvRead tcp_pending ipc_pipe (- 4095) \<lparr>base = 100, len = 8\<rparr> =
     ([Call_uv_pipe_pending_count (Some 1), Call_uv_pipe_pending_type (Some 1),
       EmitRead (- 4095) \<lparr>base = 100, len = 8\<rparr>], Inr ())"
proof -
  have r: "snd (OnUvRead tcp_pending ipc_pipe 5 \<lparr>base = 100, len = 8\<rparr>) = Inr ()"
    by (simp add: OnUvRead_def pending_query_def accept_pending_def AcceptHandle_def
        ipc_pipe_def tcp_pending_def)
  have q: "fst (pending_query tcp_pending ipc_pipe) =
      [Call_uv_pipe_pending_count (Some 1), Call_uv_pipe_pending_type (Some 1)]"
    by (simp add: pending_query_def ipc_pipe_def tcp_pending_def)
  have p: "\<not> persistent_IsEmpty ipc_pipe" by (simp add: ipc_pipe_def)
  show ?thesis
    using r q p
      OnUvRead_forwards [of tcp_pending ipc_pipe 5 "\<lparr>base = 100, len = 8\<rparr>"]
      OnUvRead_forwards [of tcp_pending ipc_pipe "- 4095" "\<lparr>base = 100, len = 8\<rparr>"]
    by simp
qed

text \<open>A read of 5 bytes whose accept fails: the process aborts and the read is not forwarded.\<close>

theorem OnUvRead_abort_counterexample:
  "0 < (5::int) \<and> \<not> persistent_IsEmpty ipc_pipe \<and>
   OnUvRead (tcp_pending\<lparr>uv_accept := - 11\<rparr>) ipc_pipe 5 \<lparr>base = 100, len = 8\<rparr> =
     ([Call_uv_pipe_pending_count (Some 1), Call_uv_pipe_pending_type (Some 1),
       NODE_COUNT_PIPE_BYTES_RECV 5, Call_Instantiate TCPWrap, Call_uv_accept (Some 1) 7],
      Inl ABORT_uv_accept)"
  by (simp add: OnUvRead_def pending_query_def accept_pending_def AcceptHandle_def
      ipc_pipe_def tcp_pending_def)

text \<open>
  C10: on a read completion with a zero or negative byte count, \<open>OnUvRead\<close> makes no
  call that instantiates a wrapper, accepts into one or stores one as
  \<open>pendingHandle\<close>; this is so also on an IPC pipe with a pending handle whose type
  has just been queried, where the only call after the two queries is the forward of
  \<open>(nread, buf)\<close>.
\<close>

theorem OnUvRead_no_accept_without_data:
  "(nread \<le> 0 \<longrightarrow> filter accepting_call (fst (OnUvRead k this nread buf)) = [])
   \<and> (nread \<le> 0 \<and> \<not> persistent_IsEmpty this \<and> is_named_pipe_ipc this \<and>
       0 < uv_pipe_pending_count k \<longrightarrow>
       OnUvRead k this nread buf =
         ([Call_uv_pipe_pending_count (stream this), Call_uv_pipe_pending_type (stream this),
           EmitRead nread buf], Inr ()))"
  by (simp add: OnUvRead_def pending_query_def)

text \<open>A read of zero bytes on an IPC pipe with a pending TCP handle.\<close>

theorem OnUvRead_no_accept_without_data_witness:
  "(0 :: int) \<le> 0 \<and> \<not> persistent_IsEmpty ipc_pipe \<and> is_named_pipe_ipc ipc_pipe \<and>
   0 < uv_pipe_pending_count tcp_pending \<and> uv_pipe_pending_type tcp_pending = UV_TCP \<and>
   filter accepting_call (fst (OnUvRead tcp_pending ipc_pipe 0 \<lparr>base = 100, len = 8\<rparr>)) = [] \<and>
   OnUvRead tcp_pending ipc_pipe 0 \<lparr>base = 100, len = 8\<rparr> =
     ([Call_uv_pipe_pending_count (Some 1), Call_uv_pipe_pending_type (Some 1),
       EmitRead 0 \<lparr>base = 100, len = 8\<rparr>], Inr ())"
  using OnUvRead_no_accept_without_data [of 0 tcp_pending ipc_pipe "\<lparr>base = 100, len = 8\<rparr>"]
  by (simp add: ipc_pipe_def tcp_pending_def)

section \<open>Properties of \<open>GetWriteQueueSize\<close> and \<open>SetBlocking\<close>\<close>

text \<open>
  C8 (amended): \<open>GetWriteQueueSize\<close> returns 0 when the stream handle is absent;
  otherwise it returns the handle's \<open>write_queue_size\<close> narrowed to 32 bits, that is
  its value modulo \<open>2 ^ 32\<close>, which is the value itself whenever that is below
  \<open>2 ^ 32\<close>. It leaves the adapter as it was.
\<close>

theorem GetWriteQueueSize_value:
  "(stream wrap = None \<longrightarrow> GetWriteQueueSize (Some wrap) = (Some wrap, Some 0))
   \<and> (stream wrap \<noteq> None \<longrightarrow>
        (\<exists>v. GetWriteQueueSize (Some wrap) = (Some wrap, Some v) \<and>
             unat v = unat (write_queue_size wrap) mod 2 ^ 32))
   \<and> (stream wrap \<noteq> None \<and> unat (write_queue_size wrap) < 2 ^ 32 \<longrightarrow>
        (\<exists>v. GetWriteQueueSize (Some wrap) = (Some wrap, Some v) \<and>
             unat v = unat (write_queue_size wrap)))
   \<and> fst (GetWriteQueueSize this) = this"
  by (auto simp: GetWriteQueueSize_def Let_def unsigned_ucast_eq take_bit_eq_mod
      unat_mod_distrib [symmetric] split: option.splits)

text \<open>An adapter without a stream, and one with 17 bytes queued.\<close>

theorem GetWriteQueueSize_value_witness:
  "stream (ipc_pipe\<lparr>stream := None, write_queue_size := 17\<rparr>) = None \<and>
   GetWriteQueueSize (Some (ipc_pipe\<lparr>stream := None, write_queue_size := 17\<rparr>)) =
     (Some (ipc_pipe\<lparr>stream := None, write_queue_size := 17\<rparr>), Some 0) \<and>
   stream (ipc_pipe\<lparr>write_queue_size := 17\<rparr>) \<noteq> None \<and>
   unat (write_queue_size (ipc_pipe\<lparr>write_queue_size := 17\<rparr>)) < 2 ^ 32 \<and>
   GetWriteQueueSize (Some (ipc_pipe\<lparr>write_queue_size := 17\<rparr>)) =
     (Some (ipc_pipe\<lparr>write_queue_size := 17\<rparr>), Some 17)"
  using GetWriteQueueSize_value [of "ipc_pipe\<lparr>stream := None, write_queue_size := 17\<rparr>"]
    GetWriteQueueSize_value [of "ipc_pipe\<lparr>write_queue_size := 17\<rparr>"]
  by (simp add: ipc_pipe_def GetWriteQueueSize_def)

text \<open>A queue of \<open>2 ^ 32\<close> bytes is reported as 0.\<close>

theorem GetWriteQueueSize_truncation_counterexample:
  "stream tcp_socket \<noteq> None \<and> unat (write_queue_size tcp_socket) = 4294967296 \<and>
   GetWriteQueueSize (Some tcp_socket) = (Some tcp_socket, Some 0)"
  by (simp add: GetWriteQueueSize_def tcp_socket_def)

text \<open>
  C7 (amended): an adapter whose close has begun is not alive. For a call with at least
  one argument, \<open>SetBlocking\<close> on an adapter that is not alive returns \<open>UV_EINVAL\<close>
  and makes no call to libuv; on an adapter that is alive it makes the one call
  \<open>uv_stream_set_blocking\<close> and returns its status. A call to libuv is made only on an
  adapter that is alive.
\<close>

theorem SetBlocking_liveness_gating:
  "(close_begun wrap \<longrightarrow> \<not> IsAlive wrap)
   \<and> (args \<noteq> [] \<and> \<not> IsAlive wrap \<longrightarrow>
        SetBlocking k (Some wrap) args = ([], Inr (Some UV_EINVAL)))
   \<and> (args \<noteq> [] \<and> IsAlive wrap \<longrightarrow>
        SetBlocking k (Some wrap) args =
          ([Call_uv_stream_set_blocking (stream wrap) (IsTrue (hd args))],
           Inr (Some (uv_stream_set_blocking k))))
   \<and> (fst (SetBlocking k holder args) \<noteq> [] \<longrightarrow> (\<exists>w. holder = Some w \<and> IsAlive w))"
  by (auto simp: SetBlocking_def IsAlive_def HandleWrap_IsAlive_def Let_def hd_conv_nth
      split: option.splits if_splits)

text \<open>A socket whose close has begun, and a live pipe.\<close>

theorem SetBlocking_liveness_gating_witness:
  "close_begun tcp_socket \<and> \<not> IsAlive tcp_socket \<and> [JS_true] \<noteq> [] \<and>
   SetBlocking tcp_pending (Some tcp_socket) [JS_true] = ([], Inr (Some UV_EINVAL)) \<and>
   IsAlive ipc_pipe \<and>
   SetBlocking tcp_pending (Some ipc_pipe) [JS_true] =
     ([Call_uv_stream_set_blocking (Some 1) True], Inr (Some 0))"
  using SetBlocking_liveness_gating [of tcp_socket "[JS_true]" tcp_pending "Some tcp_socket"]
    SetBlocking_liveness_gating [of ipc_pipe "[JS_true]" tcp_pending "Some ipc_pipe"]
  by (simp add: tcp_socket_def ipc_pipe_def tcp_pending_def IsAlive_def HandleWrap_IsAlive_def
      IsTrue_def)

text \<open>Without an argument the call on a closed socket aborts before the liveness test.\<close>

theorem SetBlocking_no_argument_counterexample:
  "close_begun tcp_socket \<and> \<not> IsAlive tcp_socket \<and>
   SetBlocking tcp_pending (Some tcp_socket) [] = ([], Inl CHECK_args_length)"
  by (simp add: SetBlocking_def IsAlive_def HandleWrap_IsAlive_def tcp_socket_def)

section \<open>Properties of \<open>DoWrite\<close>\<close>

lemma bytes_total_eq:
  "count \<le> length bufs \<Longrightarrow> bytes_total bufs count = total_len (take count bufs) mod 2 ^ 64"
proof (induction count)
  case 0
  then show ?case by (simp add: bytes_total_def total_len_def)
next
  case (Suc c)
  then have "c < length bufs" by simp
  then have "take (Suc c) bufs = take c bufs @ [bufs ! c]"
    by (rule take_Suc_conv_app_nth)
  with Suc show ?case
    by (simp add: bytes_total_def total_len_def mod_add_left_eq)
qed




text \<open>
  C3 (amended): a call to \<open>DoWrite\<close> that supplies a send handle dispatches the
  dual-handle write \<open>uv_write2\<close> on this adapter's stream, first of all and whether or
  not the adapter is an IPC pipe, and returns the status of that call as it is; the
  adapter makes no check of its own and raises no error of its own.
\<close>

theorem DoWrite_send_handle_dispatches:
  "hd (fst (DoWrite k this w bufs count (Some h))) = Call_uv_write2 w (stream this) bufs count h
   \<and> snd (DoWrite k this w bufs count (Some h)) = uv_write2 k
   \<and> DoWrite k (this\<lparr>is_named_pipe_ipc := b\<rparr>) w bufs count (Some h) =
       DoWrite k this w bufs count (Some h)"
  by (simp add: DoWrite_def Let_def)

text \<open>A send handle on a TCP socket: \<open>uv_write2\<close> is called and its status 0 returned.\<close>

theorem DoWrite_non_ipc_counterexample:
  "\<not> is_named_pipe_ipc tcp_socket \<and>
   DoWrite tcp_pending tcp_socket 9 two_bufs 2 (Some 3) =
     ([Call_uv_write2 9 (Some 2) two_bufs 2 3, NODE_COUNT_NET_BYTES_SENT 5, Dispatched 9], 0)"
  by (simp add: DoWrite_def bytes_total_eq tcp_pending_def tcp_socket_def two_bufs_def
      total_len_def)

end
